theory Spec2Isabelle
  imports Main "HOL-Library.Sublist" "HOL-Library.Multiset" "HOL-Library.Char_ord"
    "HOL-Library.List_Lexorder" "HOL-Library.Product_Lexorder"
begin

section \<open>The fragment store of \<open>pladder/snusk.py\<close>\<close>

text \<open>
  \<open>SnuskDb\<close> keeps two SQL tables in an SQLite database. A table is modelled as the list
  of its rows in the order of their rowids; the \<open>rowid\<close> of a row is its position in that
  list, so two rows never share a rowid. The columns \<open>prefix\<close>, \<open>suffix\<close> and
  \<open>inbetweeny\<close> are \<open>TEXT\<close> and compared byte by byte.

  The column \<open>score\<close> is declared \<open>INTEGER\<close>. SQLite keeps such a number as a signed
  64-bit integer and, once an addition has left that range, as a 64-bit float (storage
  class \<open>REAL\<close>). Every float that arises here is a whole number, so a score is held as
  its numeric value (\<open>n_score\<close>, \<open>i_score\<close>) together with its storage class (\<open>n_real\<close>,
  \<open>i_real\<close>: the score is stored as a float).

  Some of what the query of \<open>_random_parts\<close> returns depends on the SQLite library
  behind the connection: \<open>cte_once\<close> says that this library evaluates a common table
  expression once for the statement (it materialises it), rather than once at each place
  that refers to it.
\<close>

record noun =
  n_prefix :: string
  n_suffix :: string
  n_score :: int
  n_real :: bool

record inbetweeny =
  i_inbetweeny :: string
  i_score :: int
  i_real :: bool

record snusk_db =
  nouns :: "noun list"
  inbetweenies :: "inbetweeny list"
  cte_once :: bool

datatype error = IntegrityError | TypeError | IndexError | OverflowError

text \<open>A number as Python receives it from a query: an \<open>int\<close> or a \<open>float\<close>.\<close>

datatype py_number = PyInt int | PyFloat int

text \<open>Words with scores lower than or equal to this are not included in random picks.\<close>

definition SKIP_SCORE :: int where
  "SKIP_SCORE = - 3"

subsection \<open>Randomness\<close>

text \<open>
  One call of a composing method consumes one random outcome. For each of the five
  places where \<open>_random_parts\<close> refers to \<open>random_noun\<close> or \<open>random_inbetweeny\<close> the
  outcome holds the value that \<open>RANDOM()\<close> yields for the row with a given rowid if
  the sub-select is evaluated at that place; \<open>rnd_pick\<close> is the number drawn by
  \<open>random.choice\<close>.
\<close>

record rand =
  rnd_a :: "nat \<Rightarrow> int"
  rnd_b :: "nat \<Rightarrow> int"
  rnd_c :: "nat \<Rightarrow> int"
  rnd_d :: "nat \<Rightarrow> int"
  rnd_e :: "nat \<Rightarrow> int"
  rnd_pick :: nat

text \<open>\<open>random.choice(seq)\<close>: \<open>IndexError\<close> on an empty sequence, else one of its elements.\<close>

definition random_choice :: "'a list \<Rightarrow> nat \<Rightarrow> error + 'a" where
  "random_choice seq r = (if seq = [] then Inl IndexError else Inr (seq ! (r mod length seq)))"

subsection \<open>Set-up\<close>

text \<open>
  \<open>_setup\<close> creates the two tables when they are missing and seeds each table that is
  empty (\<open>score\<close> takes its default, the integer 0). \<open>empty_db\<close> is a new database file.
\<close>

definition empty_db :: snusk_db where
  "empty_db = \<lparr>nouns = [], inbetweenies = [], cte_once = False\<rparr>"

definition setup_db :: "snusk_db \<Rightarrow> snusk_db" where
  "setup_db db =
     (let db1 = (if nouns db = []
                 then db\<lparr>nouns := [\<lparr>n_prefix = ''frukt'', n_suffix = ''frukten'',
                                     n_score = 0, n_real = False\<rparr>]\<rparr>
                 else db)
      in if inbetweenies db1 = []
         then db1\<lparr>inbetweenies := [\<lparr>i_inbetweeny = ''i'', i_score = 0, i_real = False\<rparr>]\<rparr>
         else db1)"

subsection \<open>Random parts\<close>

text \<open>
  \<open>SELECT rowid FROM nouns WHERE score > :skip_score ORDER BY RANDOM() LIMIT 1\<close>:
  the rows that pass the filter are sorted by their random key and the first one is kept.
  The comparison is by numeric value, whatever the storage class.
\<close>

definition random_noun :: "snusk_db \<Rightarrow> (nat \<Rightarrow> int) \<Rightarrow> nat list" where
  "random_noun db rnd =
     take 1 (map fst (sort_key snd
       [(rowid, rnd rowid). (rowid, r) \<leftarrow> enumerate 0 (nouns db), SKIP_SCORE < n_score r]))"

definition random_inbetweeny :: "snusk_db \<Rightarrow> (nat \<Rightarrow> int) \<Rightarrow> nat list" where
  "random_inbetweeny db rnd =
     take 1 (map fst (sort_key snd
       [(rowid, rnd rowid). (rowid, r) \<leftarrow> enumerate 0 (inbetweenies db), SKIP_SCORE < i_score r]))"

text \<open>
  The query names one common table expression \<open>random_noun\<close> and refers to it at four
  places. A library that evaluates it once gives the same result at all four; a library
  that evaluates it at each place draws anew there. \<open>noun_ref db g rnd\<close> is what the
  place whose random values are \<open>rnd\<close> sees.
\<close>

definition noun_ref :: "snusk_db \<Rightarrow> rand \<Rightarrow> (nat \<Rightarrow> int) \<Rightarrow> nat list" where
  "noun_ref db g rnd = random_noun db (if cte_once db then rnd_a g else rnd)"

text \<open>The rows of the five-way join of \<open>_random_parts\<close> that pass its \<open>WHERE\<close> clause.\<close>

definition random_parts_rows :: "snusk_db \<Rightarrow> rand \<Rightarrow> string list list" where
  "random_parts_rows db g =
     [[n_prefix a, n_suffix b, i_inbetweeny c, n_prefix d, n_suffix e].
        (ra, a) \<leftarrow> enumerate 0 (nouns db),
        (rb, b) \<leftarrow> enumerate 0 (nouns db),
        (rc, c) \<leftarrow> enumerate 0 (inbetweenies db),
        (rd, d) \<leftarrow> enumerate 0 (nouns db),
        (re, e) \<leftarrow> enumerate 0 (nouns db),
        ra \<in> set (noun_ref db g (rnd_a g)),
        rb \<in> set (noun_ref db g (rnd_b g)),
        rc \<in> set (random_inbetweeny db (rnd_c g)),
        rd \<in> set (noun_ref db g (rnd_d g)),
        re \<in> set (noun_ref db g (rnd_e g))]"

text \<open>
  \<open>return list(c.fetchone())\<close>: \<open>fetchone\<close> gives the first row, or \<open>None\<close> when there
  is no row, and \<open>list(None)\<close> raises \<open>TypeError\<close>.
\<close>

definition random_parts :: "snusk_db \<Rightarrow> rand \<Rightarrow> error + string list" where
  "random_parts db g =
     (case random_parts_rows db g of [] \<Rightarrow> Inl TypeError | row # _ \<Rightarrow> Inr row)"

subsection \<open>Composing\<close>

text \<open>
  \<open>"{}{} {} {}{}".format(*parts)\<close> uses the first five parts and raises \<open>IndexError\<close>
  when there are fewer.
\<close>

fun format_parts :: "string list \<Rightarrow> error + string" where
  "format_parts (a # b # c # d # e # _) = Inr (a @ b @ '' '' @ c @ '' '' @ d @ e)"
| "format_parts _ = Inl IndexError"

text \<open>\<open>parts[i] = part\<close> on a Python list: \<open>IndexError\<close> when \<open>i\<close> is out of range.\<close>

definition set_part :: "string list \<Rightarrow> nat \<Rightarrow> string \<Rightarrow> error + string list" where
  "set_part parts i part = (if i < length parts then Inr (parts[i := part]) else Inl IndexError)"

definition snusk :: "snusk_db \<Rightarrow> rand \<Rightarrow> error + string" where
  "snusk db g =
     (case random_parts db g of Inl err \<Rightarrow> Inl err | Inr parts \<Rightarrow> format_parts parts)"

definition directed_snusk :: "snusk_db \<Rightarrow> rand \<Rightarrow> string \<Rightarrow> error + string" where
  "directed_snusk db g target =
     (case random_parts db g of
        Inl err \<Rightarrow> Inl err
      | Inr parts \<Rightarrow>
          (case random_choice [0, 1, 3, 4] (rnd_pick g) of
             Inl err \<Rightarrow> Inl err
           | Inr i \<Rightarrow>
               (let part = (if i \<in> set [0, 3] then target else target @ ''ern'')
                in case set_part parts i part of
                     Inl err \<Rightarrow> Inl err
                   | Inr parts' \<Rightarrow> format_parts parts')))"

definition example_snusk :: "snusk_db \<Rightarrow> rand \<Rightarrow> string \<Rightarrow> string \<Rightarrow> error + string" where
  "example_snusk db g a b =
     (case random_parts db g of
        Inl err \<Rightarrow> Inl err
      | Inr parts \<Rightarrow>
          (case random_choice [False, True] (rnd_pick g) of
             Inl err \<Rightarrow> Inl err
           | Inr flag \<Rightarrow>
               (if flag
                then (case set_part parts 0 a of
                        Inl err \<Rightarrow> Inl err
                      | Inr p1 \<Rightarrow>
                          (case set_part p1 4 b of
                             Inl err \<Rightarrow> Inl err
                           | Inr p2 \<Rightarrow> format_parts p2))
                else (case set_part parts 1 b of
                        Inl err \<Rightarrow> Inl err
                      | Inr p1 \<Rightarrow>
                          (case set_part p1 3 a of
                             Inl err \<Rightarrow> Inl err
                           | Inr p2 \<Rightarrow> format_parts p2)))))"

definition example_snusk_with_inbetweeny :: "snusk_db \<Rightarrow> rand \<Rightarrow> string \<Rightarrow> error + string" where
  "example_snusk_with_inbetweeny db g w =
     (case random_parts db g of
        Inl err \<Rightarrow> Inl err
      | Inr parts \<Rightarrow>
          (case set_part parts 2 w of
             Inl err \<Rightarrow> Inl err
           | Inr parts' \<Rightarrow> format_parts parts'))"

subsection \<open>Inserting and finding\<close>

text \<open>
  \<open>INSERT INTO nouns (prefix, suffix) VALUES (?, ?)\<close> under \<open>UNIQUE(prefix, suffix)\<close>:
  the statement raises \<open>IntegrityError\<close> and stores nothing when a row holds the pair;
  otherwise the new row goes to the end of the table with the default score.
\<close>

definition insert_noun :: "snusk_db \<Rightarrow> string \<Rightarrow> string \<Rightarrow> error + snusk_db" where
  "insert_noun db p s =
     (if \<exists>r \<in> set (nouns db). n_prefix r = p \<and> n_suffix r = s
      then Inl IntegrityError
      else Inr (db\<lparr>nouns := nouns db @
                  [\<lparr>n_prefix = p, n_suffix = s, n_score = 0, n_real = False\<rparr>]\<rparr>))"

definition insert_inbetweeny :: "snusk_db \<Rightarrow> string \<Rightarrow> error + snusk_db" where
  "insert_inbetweeny db w =
     (if \<exists>r \<in> set (inbetweenies db). i_inbetweeny r = w
      then Inl IntegrityError
      else Inr (db\<lparr>inbetweenies := inbetweenies db @
                  [\<lparr>i_inbetweeny = w, i_score = 0, i_real = False\<rparr>]\<rparr>))"

text \<open>
  \<open>add_noun\<close> and \<open>add_inbetweeny\<close> catch \<open>sqlite3.IntegrityError\<close>; each returns its
  boolean and the store as the call leaves it.
\<close>

definition add_noun :: "snusk_db \<Rightarrow> string \<Rightarrow> string \<Rightarrow> bool \<times> snusk_db" where
  "add_noun db p s =
     (case insert_noun db p s of Inr db' \<Rightarrow> (True, db') | Inl err \<Rightarrow> (False, db))"

definition add_inbetweeny :: "snusk_db \<Rightarrow> string \<Rightarrow> bool \<times> snusk_db" where
  "add_inbetweeny db w =
     (case insert_inbetweeny db w of Inr db' \<Rightarrow> (True, db') | Inl err \<Rightarrow> (False, db))"

text \<open>
  \<open>SELECT prefix, suffix FROM nouns WHERE ? IN (prefix, suffix)\<close>, then \<open>fetchall\<close>.
  The query has no \<open>ORDER BY\<close>. It needs the two columns of the index that
  \<open>UNIQUE(prefix, suffix)\<close> creates and no other, and SQLite answers it by scanning that
  index, so the matches come sorted by \<open>(prefix, suffix)\<close>.
\<close>

definition find_noun :: "snusk_db \<Rightarrow> string \<Rightarrow> (string \<times> string) list" where
  "find_noun db word =
     [(n_prefix r, n_suffix r).
        r \<leftarrow> sort_key (\<lambda>r. (n_prefix r, n_suffix r)) (nouns db),
        word \<in> set [n_prefix r, n_suffix r]]"

subsection \<open>Scores\<close>

text \<open>The range of a signed 64-bit integer.\<close>

definition int64 :: "int \<Rightarrow> bool" where
  "int64 n \<longleftrightarrow> - (2 ^ 63) \<le> n \<and> n < 2 ^ 63"

text \<open>
  A 64-bit float has 53 binary digits: the whole numbers below \<open>2 ^ 53\<close> are floats,
  and from there on the floats are the multiples of a spacing \<open>q\<close> that doubles each
  time the numbers double. \<open>round_to q a\<close> is the multiple of \<open>q\<close> nearest to \<open>a\<close>
  (which is not negative), a tie going to the even multiple.
\<close>

definition round_to :: "int \<Rightarrow> int \<Rightarrow> int" where
  "round_to q a =
     (let m = a div q; r = a mod q
      in (if 2 * r < q then m
          else if q < 2 * r then m + 1
          else if even m then m else m + 1) * q)"

text \<open>
  \<open>nearest_float k q a\<close> looks for the spacing that fits \<open>a\<close>, starting from \<open>q\<close> and
  doubling it up to \<open>k\<close> times.
\<close>

primrec nearest_float :: "nat \<Rightarrow> int \<Rightarrow> int \<Rightarrow> int" where
  "nearest_float 0 q a = a"
| "nearest_float (Suc k) q a =
     (if a div q < 2 ^ 53 then round_to q a else nearest_float k (2 * q) a)"

text \<open>
  The 64-bit float nearest to a whole number, as a whole number again. The spacing
  \<open>2 ^ 971\<close> is that of the largest floats; no score gets near them.
\<close>

definition to_double :: "int \<Rightarrow> int" where
  "to_double n = sgn n * nearest_float 972 1 \<bar>n\<bar>"

text \<open>
  \<open>SET score = score + ?\<close> with an integer bound to \<open>?\<close>. Two integers are added as
  64-bit integers; when that overflows, or when the score is a float already, both are
  taken as floats and added as floats. The column is \<open>INTEGER\<close>: a float result is
  stored as an integer when it lies strictly between the least and the greatest 64-bit
  integer. The result is the new numeric value and whether it is stored as a float.
\<close>

definition score_plus :: "int \<Rightarrow> bool \<Rightarrow> int \<Rightarrow> int \<times> bool" where
  "score_plus v is_real delta =
     (if \<not> is_real \<and> int64 (v + delta) then (v + delta, False)
      else (let x = to_double ((if is_real then v else to_double v) + to_double delta)
            in (x, \<not> (- (2 ^ 63) < x \<and> x < 2 ^ 63 - 1))))"

text \<open>What Python gets for a stored score: an \<open>int\<close>, or a \<open>float\<close> for a float.\<close>

definition py_score :: "int \<Rightarrow> bool \<Rightarrow> py_number" where
  "py_score v is_real = (if is_real then PyFloat v else PyInt v)"

text \<open>The \<open>UPDATE\<close> and the \<open>SELECT\<close> with \<open>fetchone\<close> of \<open>add_noun_score\<close>.\<close>

definition update_noun_score :: "snusk_db \<Rightarrow> string \<Rightarrow> string \<Rightarrow> int \<Rightarrow> snusk_db" where
  "update_noun_score db p s delta =
     db\<lparr>nouns := map (\<lambda>r. if n_prefix r = p \<and> n_suffix r = s
                             then r\<lparr>n_score := fst (score_plus (n_score r) (n_real r) delta),
                                    n_real := snd (score_plus (n_score r) (n_real r) delta)\<rparr>
                             else r) (nouns db)\<rparr>"

definition select_noun_score :: "snusk_db \<Rightarrow> string \<Rightarrow> string \<Rightarrow> py_number option" where
  "select_noun_score db p s =
     (case [py_score (n_score r) (n_real r). r \<leftarrow> nouns db, n_prefix r = p \<and> n_suffix r = s] of
        [] \<Rightarrow> None | row # _ \<Rightarrow> Some row)"

text \<open>
  The delta is bound as a 64-bit integer: \<open>sqlite3\<close> raises \<open>OverflowError\<close> for a Python
  integer outside that range, before anything is changed.
\<close>

definition add_noun_score ::
  "snusk_db \<Rightarrow> string \<Rightarrow> string \<Rightarrow> int \<Rightarrow> error + (py_number option \<times> snusk_db)" where
  "add_noun_score db p s delta =
     (if \<not> int64 delta then Inl OverflowError
      else (let db' = update_noun_score db p s delta in Inr (select_noun_score db' p s, db')))"

definition update_inbetweeny_score :: "snusk_db \<Rightarrow> string \<Rightarrow> int \<Rightarrow> snusk_db" where
  "update_inbetweeny_score db w delta =
     db\<lparr>inbetweenies :=
          map (\<lambda>r. if i_inbetweeny r = w
                    then r\<lparr>i_score := fst (score_plus (i_score r) (i_real r) delta),
                           i_real := snd (score_plus (i_score r) (i_real r) delta)\<rparr>
                    else r) (inbetweenies db)\<rparr>"

definition select_inbetweeny_score :: "snusk_db \<Rightarrow> string \<Rightarrow> py_number option" where
  "select_inbetweeny_score db w =
     (case [py_score (i_score r) (i_real r). r \<leftarrow> inbetweenies db, i_inbetweeny r = w] of
        [] \<Rightarrow> None | row # _ \<Rightarrow> Some row)"

definition add_inbetweeny_score ::
  "snusk_db \<Rightarrow> string \<Rightarrow> int \<Rightarrow> error + (py_number option \<times> snusk_db)" where
  "add_inbetweeny_score db w delta =
     (if \<not> int64 delta then Inl OverflowError
      else (let db' = update_inbetweeny_score db w delta
            in Inr (select_inbetweeny_score db' w, db')))"

text \<open>
  A caller applying a sequence of deltas to one fragment, one call after the other: the
  results of the calls in order and the store after the last call, or the error of the
  first call that raises.
\<close>

fun add_noun_scores ::
  "snusk_db \<Rightarrow> string \<Rightarrow> string \<Rightarrow> int list \<Rightarrow> error + (py_number option list \<times> snusk_db)" where
  "add_noun_scores db p s [] = Inr ([], db)"
| "add_noun_scores db p s (delta # deltas) =
     (case add_noun_score db p s delta of
        Inl err \<Rightarrow> Inl err
      | Inr (res, db') \<Rightarrow>
          (case add_noun_scores db' p s deltas of
             Inl err \<Rightarrow> Inl err
           | Inr (ress, db'') \<Rightarrow> Inr (res # ress, db'')))"

fun add_inbetweeny_scores ::
  "snusk_db \<Rightarrow> string \<Rightarrow> int list \<Rightarrow> error + (py_number option list \<times> snusk_db)" where
  "add_inbetweeny_scores db w [] = Inr ([], db)"
| "add_inbetweeny_scores db w (delta # deltas) =
     (case add_inbetweeny_score db w delta of
        Inl err \<Rightarrow> Inl err
      | Inr (res, db') \<Rightarrow>
          (case add_inbetweeny_scores db' w deltas of
             Inl err \<Rightarrow> Inl err
           | Inr (ress, db'') \<Rightarrow> Inr (res # ress, db'')))"

subsection \<open>Auxiliary notions for the statements below\<close>

text \<open>The tuple that \<open>_random_parts\<close> builds from the five rows with the given rowids.\<close>

definition parts_of :: "snusk_db \<Rightarrow> nat \<Rightarrow> nat \<Rightarrow> nat \<Rightarrow> nat \<Rightarrow> nat \<Rightarrow> string list" where
  "parts_of db ra rb rc rd re =
     [n_prefix (nouns db ! ra), n_suffix (nouns db ! rb), i_inbetweeny (inbetweenies db ! rc),
      n_prefix (nouns db ! rd), n_suffix (nouns db ! re)]"

section \<open>Properties of the random draws\<close>

lemma random_noun_eligible:
  "i \<in> set (random_noun db rnd) \<Longrightarrow> i < length (nouns db) \<and> SKIP_SCORE < n_score (nouns db ! i)"
  unfolding random_noun_def
  by (auto dest!: in_set_takeD simp: in_set_enumerate_eq)

lemma random_inbetweeny_eligible:
  "i \<in> set (random_inbetweeny db rnd) \<Longrightarrow>
     i < length (inbetweenies db) \<and> SKIP_SCORE < i_score (inbetweenies db ! i)"
  unfolding random_inbetweeny_def
  by (auto dest!: in_set_takeD simp: in_set_enumerate_eq)

lemma ne_if_mem: "x \<in> set xs \<Longrightarrow> xs \<noteq> []"
  by auto

lemma take1_sort_fst:
  assumes "xs \<noteq> []"
  shows "\<exists>x \<in> set xs. take 1 (map fst (sort_key snd xs)) = [fst x] \<and> (\<forall>y \<in> set xs. snd x \<le> snd y)"
proof -
  let ?ys = "sort_key snd xs"
  from assms have "?ys \<noteq> []" by (metis length_sort length_0_conv)
  then obtain z zs where ys: "?ys = z # zs" by (cases ?ys) auto
  have "sorted (map snd ?ys)" by (rule sorted_sort_key)
  with ys have "\<forall>y \<in> set ?ys. snd z \<le> snd y" by auto
  then have least: "\<forall>y \<in> set xs. snd z \<le> snd y" by simp
  have "z \<in> set ?ys" using ys by simp
  then have "z \<in> set xs" by simp
  moreover have "take 1 (map fst ?ys) = [fst z]" using ys by simp
  ultimately show ?thesis using least by blast
qed

lemma random_noun_nonempty:
  assumes "i < length (nouns db)" "SKIP_SCORE < n_score (nouns db ! i)"
  shows "\<exists>j. random_noun db rnd = [j]"
proof -
  let ?xs = "[(rowid, rnd rowid). (rowid, r) \<leftarrow> enumerate 0 (nouns db), SKIP_SCORE < n_score r]"
  have "(i, rnd i) \<in> set ?xs" using assms by (auto simp: in_set_enumerate_eq intro!: bexI[of _ "(i, nouns db ! i)"])
  then have "?xs \<noteq> []" by (rule ne_if_mem)
  from take1_sort_fst[OF this] show ?thesis unfolding random_noun_def by blast
qed



lemma random_inbetweeny_nonempty:
  assumes "i < length (inbetweenies db)" "SKIP_SCORE < i_score (inbetweenies db ! i)"
  shows "\<exists>j. random_inbetweeny db rnd = [j]"
proof -
  let ?xs = "[(rowid, rnd rowid). (rowid, r) \<leftarrow> enumerate 0 (inbetweenies db), SKIP_SCORE < i_score r]"
  have "(i, rnd i) \<in> set ?xs"
    using assms by (auto simp: in_set_enumerate_eq intro!: bexI[of _ "(i, inbetweenies db ! i)"])
  then have "?xs \<noteq> []" by (rule ne_if_mem)
  from take1_sort_fst[OF this] show ?thesis unfolding random_inbetweeny_def by blast
qed


lemma noun_ref_eligible:
  "i \<in> set (noun_ref db g rnd) \<Longrightarrow> i < length (nouns db) \<and> SKIP_SCORE < n_score (nouns db ! i)"
  unfolding noun_ref_def by (rule random_noun_eligible)

lemma noun_ref_nonempty:
  assumes "i < length (nouns db)" "SKIP_SCORE < n_score (nouns db ! i)"
  shows "\<exists>j. noun_ref db g rnd = [j]"
  unfolding noun_ref_def using assms by (rule random_noun_nonempty)

lemma noun_ref_each: "\<not> cte_once db \<Longrightarrow> noun_ref db g rnd = random_noun db rnd"
  by (simp add: noun_ref_def)

lemma noun_ref_once: "cte_once db \<Longrightarrow> noun_ref db g rnd = random_noun db (rnd_a g)"
  by (simp add: noun_ref_def)

lemma rows_mem_iff:
  "t \<in> set (random_parts_rows db g) \<longleftrightarrow>
     (\<exists>ra rb rc rd re.
        (ra < length (nouns db) \<and> rb < length (nouns db) \<and> rc < length (inbetweenies db) \<and>
         rd < length (nouns db) \<and> re < length (nouns db)) \<and>
        (ra \<in> set (noun_ref db g (rnd_a g)) \<and> rb \<in> set (noun_ref db g (rnd_b g)) \<and>
         rc \<in> set (random_inbetweeny db (rnd_c g)) \<and>
         rd \<in> set (noun_ref db g (rnd_d g)) \<and> re \<in> set (noun_ref db g (rnd_e g))) \<and>
        t = parts_of db ra rb rc rd re)"
  unfolding random_parts_rows_def parts_of_def
  by (simp add: Bex_def in_set_enumerate_eq)

lemma rows_memD:
  assumes "t \<in> set (random_parts_rows db g)"
  shows "\<exists>ra rb rc rd re.
           ra \<in> set (noun_ref db g (rnd_a g)) \<and> rb \<in> set (noun_ref db g (rnd_b g)) \<and>
           rc \<in> set (random_inbetweeny db (rnd_c g)) \<and>
           rd \<in> set (noun_ref db g (rnd_d g)) \<and> re \<in> set (noun_ref db g (rnd_e g)) \<and>
           t = parts_of db ra rb rc rd re"
  using assms unfolding rows_mem_iff by blast

lemma rows_memI:
  assumes "ra \<in> set (noun_ref db g (rnd_a g))" "rb \<in> set (noun_ref db g (rnd_b g))"
    "rc \<in> set (random_inbetweeny db (rnd_c g))"
    "rd \<in> set (noun_ref db g (rnd_d g))" "re \<in> set (noun_ref db g (rnd_e g))"
  shows "parts_of db ra rb rc rd re \<in> set (random_parts_rows db g)"
  unfolding rows_mem_iff
  using assms noun_ref_eligible[OF assms(1)] noun_ref_eligible[OF assms(2)]
    random_inbetweeny_eligible[OF assms(3)] noun_ref_eligible[OF assms(4)]
    noun_ref_eligible[OF assms(5)]
  by blast

lemma random_parts_InrD: "random_parts db g = Inr t \<Longrightarrow> t \<in> set (random_parts_rows db g)"
  unfolding random_parts_def by (cases "random_parts_rows db g") auto

lemma random_parts_InlD:
  "random_parts db g = Inl err \<Longrightarrow> err = TypeError \<and> random_parts_rows db g = []"
  unfolding random_parts_def by (cases "random_parts_rows db g") auto

lemma random_parts_no_rows: "random_parts_rows db g = [] \<Longrightarrow> random_parts db g = Inl TypeError"
  unfolding random_parts_def by simp

lemma random_parts_determined:
  assumes "noun_ref db g (rnd_a g) = [ra]" "noun_ref db g (rnd_b g) = [rb]"
    "random_inbetweeny db (rnd_c g) = [rc]"
    "noun_ref db g (rnd_d g) = [rd]" "noun_ref db g (rnd_e g) = [re]"
  shows "random_parts db g = Inr (parts_of db ra rb rc rd re)"
proof -
  have "parts_of db ra rb rc rd re \<in> set (random_parts_rows db g)"
    by (rule rows_memI) (simp_all add: assms)
  then have "random_parts_rows db g \<noteq> []" by (rule ne_if_mem)
  then obtain t where t: "random_parts db g = Inr t"
    unfolding random_parts_def by (cases "random_parts_rows db g") auto
  from rows_memD[OF random_parts_InrD[OF t]] have "t = parts_of db ra rb rc rd re"
    by (auto simp: assms)
  with t show ?thesis by simp
qed

lemma random_parts_eligibleD:
  assumes "random_parts db g = Inr t"
  shows "\<exists>ra rb rc rd re.
           (ra < length (nouns db) \<and> SKIP_SCORE < n_score (nouns db ! ra)) \<and>
           (rb < length (nouns db) \<and> SKIP_SCORE < n_score (nouns db ! rb)) \<and>
           (rc < length (inbetweenies db) \<and> SKIP_SCORE < i_score (inbetweenies db ! rc)) \<and>
           (rd < length (nouns db) \<and> SKIP_SCORE < n_score (nouns db ! rd)) \<and>
           (re < length (nouns db) \<and> SKIP_SCORE < n_score (nouns db ! re)) \<and>
           t = parts_of db ra rb rc rd re"
proof -
  from rows_memD[OF random_parts_InrD[OF assms]] obtain ra rb rc rd re where
    h: "ra \<in> set (noun_ref db g (rnd_a g))" "rb \<in> set (noun_ref db g (rnd_b g))"
       "rc \<in> set (random_inbetweeny db (rnd_c g))"
       "rd \<in> set (noun_ref db g (rnd_d g))" "re \<in> set (noun_ref db g (rnd_e g))"
       "t = parts_of db ra rb rc rd re" by blast
  show ?thesis
    using noun_ref_eligible[OF h(1)] noun_ref_eligible[OF h(2)]
      random_inbetweeny_eligible[OF h(3)] noun_ref_eligible[OF h(4)]
      noun_ref_eligible[OF h(5)] h(6) by blast
qed

lemma random_noun_none:
  assumes "\<forall>r \<in> set (nouns db). n_score r \<le> SKIP_SCORE"
  shows "random_noun db rnd = []"
proof (rule ccontr)
  assume "random_noun db rnd \<noteq> []"
  then obtain i where "i \<in> set (random_noun db rnd)" by (cases "random_noun db rnd") auto
  from random_noun_eligible[OF this] assms show False by (auto simp: all_set_conv_all_nth)
qed

lemma random_inbetweeny_none:
  assumes "\<forall>r \<in> set (inbetweenies db). i_score r \<le> SKIP_SCORE"
  shows "random_inbetweeny db rnd = []"
proof (rule ccontr)
  assume "random_inbetweeny db rnd \<noteq> []"
  then obtain i where "i \<in> set (random_inbetweeny db rnd)"
    by (cases "random_inbetweeny db rnd") auto
  from random_inbetweeny_eligible[OF this] assms show False by (auto simp: all_set_conv_all_nth)
qed

lemma random_parts_fails:
  assumes "(\<forall>r \<in> set (nouns db). n_score r \<le> SKIP_SCORE) \<or>
           (\<forall>r \<in> set (inbetweenies db). i_score r \<le> SKIP_SCORE)"
  shows "random_parts db g = Inl TypeError"
proof -
  have "set (random_parts_rows db g) = {}"
    using assms rows_memD[of _ db g] random_noun_none[of db] random_inbetweeny_none[of db]
    unfolding noun_ref_def by fastforce
  then show ?thesis by (simp add: random_parts_no_rows)
qed

section \<open>Claims about the random draws\<close>

text \<open>
  C1. Each of the five draws of \<open>_random_parts\<close> is restricted to rows with score
  strictly greater than \<open>SKIP_SCORE\<close>, which is -3: the rowid that a draw yields is the
  rowid of such a row, and every returned tuple is made of the prefix, suffix, word,
  prefix and suffix of five such rows. So a string that only nouns with score at most -3
  have as their prefix is never in slot 0 or 3, one that only such nouns have as their
  suffix is never in slot 1 or 4, and the word of an inbetweeny with score at most -3 is
  never in slot 2. When no noun or no inbetweeny has a score above -3 the call does not
  return a tuple but raises (\<open>TypeError\<close>).
\<close>

theorem random_parts_skips_low_scores:
  "(\<forall>i \<in> set (random_noun db rnd). i < length (nouns db) \<and> - 3 < n_score (nouns db ! i)) \<and>
   (\<forall>i \<in> set (random_inbetweeny db rnd).
      i < length (inbetweenies db) \<and> - 3 < i_score (inbetweenies db ! i)) \<and>
   (random_parts db g = Inr t \<longrightarrow>
      (\<exists>a \<in> set (nouns db). \<exists>b \<in> set (nouns db). \<exists>c \<in> set (inbetweenies db).
       \<exists>d \<in> set (nouns db). \<exists>e \<in> set (nouns db).
         - 3 < n_score a \<and> - 3 < n_score b \<and> - 3 < i_score c \<and> - 3 < n_score d \<and> - 3 < n_score e \<and>
         t = [n_prefix a, n_suffix b, i_inbetweeny c, n_prefix d, n_suffix e])) \<and>
   (random_parts db g = Inr t \<and> (\<forall>r \<in> set (nouns db). n_prefix r = w \<longrightarrow> n_score r \<le> - 3) \<longrightarrow>
      t ! 0 \<noteq> w \<and> t ! 3 \<noteq> w) \<and>
   (random_parts db g = Inr t \<and> (\<forall>r \<in> set (nouns db). n_suffix r = w \<longrightarrow> n_score r \<le> - 3) \<longrightarrow>
      t ! 1 \<noteq> w \<and> t ! 4 \<noteq> w) \<and>
   (random_parts db g = Inr t \<and>
      (\<forall>r \<in> set (inbetweenies db). i_inbetweeny r = w \<longrightarrow> i_score r \<le> - 3) \<longrightarrow>
      t ! 2 \<noteq> w) \<and>
   ((\<forall>r \<in> set (nouns db). n_score r \<le> - 3) \<or> (\<forall>r \<in> set (inbetweenies db). i_score r \<le> - 3) \<longrightarrow>
      random_parts db g = Inl TypeError)"
proof -
  have draw_n: "\<forall>i \<in> set (random_noun db rnd). i < length (nouns db) \<and> - 3 < n_score (nouns db ! i)"
    using random_noun_eligible[of _ db rnd] by (simp add: SKIP_SCORE_def)
  have draw_i: "\<forall>i \<in> set (random_inbetweeny db rnd).
      i < length (inbetweenies db) \<and> - 3 < i_score (inbetweenies db ! i)"
    using random_inbetweeny_eligible[of _ db rnd] by (simp add: SKIP_SCORE_def)
  have shape: "\<exists>a \<in> set (nouns db). \<exists>b \<in> set (nouns db). \<exists>c \<in> set (inbetweenies db).
       \<exists>d \<in> set (nouns db). \<exists>e \<in> set (nouns db).
         - 3 < n_score a \<and> - 3 < n_score b \<and> - 3 < i_score c \<and> - 3 < n_score d \<and> - 3 < n_score e \<and>
         t = [n_prefix a, n_suffix b, i_inbetweeny c, n_prefix d, n_suffix e]"
    if "random_parts db g = Inr t"
  proof -
    from random_parts_eligibleD[OF that] obtain ra rb rc rd re where
      h: "ra < length (nouns db)" "SKIP_SCORE < n_score (nouns db ! ra)"
         "rb < length (nouns db)" "SKIP_SCORE < n_score (nouns db ! rb)"
         "rc < length (inbetweenies db)" "SKIP_SCORE < i_score (inbetweenies db ! rc)"
         "rd < length (nouns db)" "SKIP_SCORE < n_score (nouns db ! rd)"
         "re < length (nouns db)" "SKIP_SCORE < n_score (nouns db ! re)"
         "t = parts_of db ra rb rc rd re" by blast
    show ?thesis
      apply (rule bexI[of _ "nouns db ! ra"], rule bexI[of _ "nouns db ! rb"],
             rule bexI[of _ "inbetweenies db ! rc"], rule bexI[of _ "nouns db ! rd"],
             rule bexI[of _ "nouns db ! re"])
      using h by (simp_all add: SKIP_SCORE_def parts_of_def)
  qed
  have pre: "t ! 0 \<noteq> w \<and> t ! 3 \<noteq> w"
    if "random_parts db g = Inr t" "\<forall>r \<in> set (nouns db). n_prefix r = w \<longrightarrow> n_score r \<le> - 3"
    using shape[OF that(1)] that(2) by fastforce
  have suf: "t ! 1 \<noteq> w \<and> t ! 4 \<noteq> w"
    if "random_parts db g = Inr t" "\<forall>r \<in> set (nouns db). n_suffix r = w \<longrightarrow> n_score r \<le> - 3"
    using shape[OF that(1)] that(2) by fastforce
  have wrd: "t ! 2 \<noteq> w"
    if "random_parts db g = Inr t"
      "\<forall>r \<in> set (inbetweenies db). i_inbetweeny r = w \<longrightarrow> i_score r \<le> - 3"
    using shape[OF that(1)] that(2) by fastforce
  have fails: "random_parts db g = Inl TypeError"
    if "(\<forall>r \<in> set (nouns db). n_score r \<le> - 3) \<or> (\<forall>r \<in> set (inbetweenies db). i_score r \<le> - 3)"
    using that by (intro random_parts_fails) (simp add: SKIP_SCORE_def)
  from draw_n draw_i shape pre suf wrd fails show ?thesis by blast
qed

theorem random_parts_skips_low_scores_witness:
  "random_parts
     \<lparr>nouns = [\<lparr>n_prefix = ''ful'', n_suffix = ''fulen'', n_score = - 3, n_real = False\<rparr>,
               \<lparr>n_prefix = ''frukt'', n_suffix = ''frukten'', n_score = - 2, n_real = False\<rparr>],
      inbetweenies = [\<lparr>i_inbetweeny = ''och'', i_score = - 4, i_real = False\<rparr>, \<lparr>i_inbetweeny = ''i'', i_score = 0, i_real = False\<rparr>], cte_once = False\<rparr>
     \<lparr>rnd_a = int, rnd_b = int, rnd_c = int, rnd_d = int, rnd_e = int, rnd_pick = 0\<rparr>
     = Inr [''frukt'', ''frukten'', ''i'', ''frukt'', ''frukten''] \<and>
   random_parts
     \<lparr>nouns = [\<lparr>n_prefix = ''ful'', n_suffix = ''fulen'', n_score = - 3, n_real = False\<rparr>],
      inbetweenies = [\<lparr>i_inbetweeny = ''i'', i_score = 0, i_real = False\<rparr>], cte_once = False\<rparr>
     \<lparr>rnd_a = int, rnd_b = int, rnd_c = int, rnd_d = int, rnd_e = int, rnd_pick = 0\<rparr>
     = Inl TypeError \<and>
   random_parts
     \<lparr>nouns = [\<lparr>n_prefix = ''frukt'', n_suffix = ''frukten'', n_score = 0, n_real = False\<rparr>],
      inbetweenies = [\<lparr>i_inbetweeny = ''i'', i_score = - 3, i_real = False\<rparr>], cte_once = False\<rparr>
     \<lparr>rnd_a = int, rnd_b = int, rnd_c = int, rnd_d = int, rnd_e = int, rnd_pick = 0\<rparr>
     = Inl TypeError"
proof -
  let ?g = "\<lparr>rnd_a = int, rnd_b = int, rnd_c = int, rnd_d = int, rnd_e = int, rnd_pick = 0\<rparr>"
  let ?db1 = "\<lparr>nouns = [\<lparr>n_prefix = ''ful'', n_suffix = ''fulen'', n_score = - 3, n_real = False\<rparr>,
               \<lparr>n_prefix = ''frukt'', n_suffix = ''frukten'', n_score = - 2, n_real = False\<rparr>],
      inbetweenies = [\<lparr>i_inbetweeny = ''och'', i_score = - 4, i_real = False\<rparr>, \<lparr>i_inbetweeny = ''i'', i_score = 0, i_real = False\<rparr>], cte_once = False\<rparr>"
  let ?db2 = "\<lparr>nouns = [\<lparr>n_prefix = ''ful'', n_suffix = ''fulen'', n_score = - 3, n_real = False\<rparr>],
      inbetweenies = [\<lparr>i_inbetweeny = ''i'', i_score = 0, i_real = False\<rparr>], cte_once = False\<rparr>"
  let ?db3 = "\<lparr>nouns = [\<lparr>n_prefix = ''frukt'', n_suffix = ''frukten'', n_score = 0, n_real = False\<rparr>],
      inbetweenies = [\<lparr>i_inbetweeny = ''i'', i_score = - 3, i_real = False\<rparr>], cte_once = False\<rparr>"
  have ok: "random_parts ?db1 ?g = Inr [''frukt'', ''frukten'', ''i'', ''frukt'', ''frukten'']"
    by code_simp
  have "random_parts ?db2 ?g = Inl TypeError"
    using random_parts_skips_low_scores[of ?db2 int ?g] by simp
  moreover have "random_parts ?db3 ?g = Inl TypeError"
    using random_parts_skips_low_scores[of ?db3 int ?g] by simp
  ultimately show ?thesis
    using ok random_parts_skips_low_scores[of ?db1 int ?g "[''frukt'', ''frukten'', ''i'', ''frukt'', ''frukten'']"]
    by simp
qed








section \<open>Claims about inserting and scoring\<close>

lemma select_noun_score_filter:
  "select_noun_score db p s =
     (case filter (\<lambda>r. n_prefix r = p \<and> n_suffix r = s) (nouns db) of
        [] \<Rightarrow> None | r # _ \<Rightarrow> Some (py_score (n_score r) (n_real r)))"
proof -
  have eq: "[py_score (n_score r) (n_real r). r \<leftarrow> ns, n_prefix r = p \<and> n_suffix r = s] =
        map (\<lambda>r. py_score (n_score r) (n_real r))
          (filter (\<lambda>r. n_prefix r = p \<and> n_suffix r = s) ns)" for ns
    by (induction ns) auto
  show ?thesis unfolding select_noun_score_def eq by (simp split: list.splits)
qed

lemma select_inbetweeny_score_filter:
  "select_inbetweeny_score db w =
     (case filter (\<lambda>r. i_inbetweeny r = w) (inbetweenies db) of
        [] \<Rightarrow> None | r # _ \<Rightarrow> Some (py_score (i_score r) (i_real r)))"
proof -
  have eq: "[py_score (i_score r) (i_real r). r \<leftarrow> ns, i_inbetweeny r = w] =
        map (\<lambda>r. py_score (i_score r) (i_real r)) (filter (\<lambda>r. i_inbetweeny r = w) ns)" for ns
    by (induction ns) auto
  show ?thesis unfolding select_inbetweeny_score_def eq by (simp split: list.splits)
qed

lemma py_score_PyInt: "py_score v is_real = PyInt u \<longleftrightarrow> \<not> is_real \<and> v = u"
  by (simp add: py_score_def)

lemma score_plus_in_range: "int64 (v + delta) \<Longrightarrow> score_plus v False delta = (v + delta, False)"
  by (simp add: score_plus_def)

lemma select_noun_score_step:
  assumes "select_noun_score db p s = Some (PyInt v)" "int64 (v + delta)"
  shows "select_noun_score (update_noun_score db p s delta) p s = Some (PyInt (v + delta))"
proof -
  let ?P = "\<lambda>r. n_prefix r = p \<and> n_suffix r = s"
  let ?f = "\<lambda>r. if n_prefix r = p \<and> n_suffix r = s
                 then r\<lparr>n_score := fst (score_plus (n_score r) (n_real r) delta),
                        n_real := snd (score_plus (n_score r) (n_real r) delta)\<rparr>
                 else r"
  have n: "nouns (update_noun_score db p s delta) = map ?f (nouns db)"
    by (simp add: update_noun_score_def)
  have fm: "filter ?P (map ?f ns) = map ?f (filter ?P ns)" for ns
    by (induction ns) auto
  from assms(1) obtain a rest where ar: "filter ?P (nouns db) = a # rest"
    and a: "\<not> n_real a" "n_score a = v"
    unfolding select_noun_score_filter by (auto split: list.splits simp: py_score_PyInt)
  from ar have "a \<in> set (filter ?P (nouns db))" by simp
  then have "?P a" by simp
  then show ?thesis
    unfolding select_noun_score_filter n fm ar
    using a score_plus_in_range[OF assms(2)] by (simp add: py_score_def)
qed

lemma select_inbetweeny_score_step:
  assumes "select_inbetweeny_score db w = Some (PyInt v)" "int64 (v + delta)"
  shows "select_inbetweeny_score (update_inbetweeny_score db w delta) w = Some (PyInt (v + delta))"
proof -
  let ?P = "\<lambda>r. i_inbetweeny r = w"
  let ?f = "\<lambda>r. if i_inbetweeny r = w
                 then r\<lparr>i_score := fst (score_plus (i_score r) (i_real r) delta),
                        i_real := snd (score_plus (i_score r) (i_real r) delta)\<rparr>
                 else r"
  have n: "inbetweenies (update_inbetweeny_score db w delta) = map ?f (inbetweenies db)"
    by (simp add: update_inbetweeny_score_def)
  have fm: "filter ?P (map ?f ns) = map ?f (filter ?P ns)" for ns
    by (induction ns) auto
  from assms(1) obtain a rest where ar: "filter ?P (inbetweenies db) = a # rest"
    and a: "\<not> i_real a" "i_score a = v"
    unfolding select_inbetweeny_score_filter by (auto split: list.splits simp: py_score_PyInt)
  from ar have "a \<in> set (filter ?P (inbetweenies db))" by simp
  then have "?P a" by simp
  then show ?thesis
    unfolding select_inbetweeny_score_filter n fm ar
    using a score_plus_in_range[OF assms(2)] by (simp add: py_score_def)
qed







lemma add_noun_scores_sum:
  assumes "select_noun_score db p s = Some (PyInt v)"
    and "\<forall>d \<in> set deltas. int64 d"
    and "\<forall>n < length deltas. int64 (v + sum_list (take (Suc n) deltas))"
  shows "\<exists>db'. add_noun_scores db p s deltas =
            Inr (map (\<lambda>n. Some (PyInt (v + sum_list (take (Suc n) deltas)))) [0..<length deltas], db') \<and>
          select_noun_score db' p s = Some (PyInt (v + sum_list deltas))"
  using assms
proof (induction deltas arbitrary: db v)
  case Nil
  then show ?case by simp
next
  case (Cons d ds)
  let ?db' = "update_noun_score db p s d"
  from Cons.prems(3) have r0: "int64 (v + d)" by fastforce
  have sel: "select_noun_score ?db' p s = Some (PyInt (v + d))"
    using select_noun_score_step[OF Cons.prems(1) r0] .
  have d: "int64 d" using Cons.prems(2) by simp
  have step: "add_noun_score db p s d = Inr (Some (PyInt (v + d)), ?db')"
    using sel d by (simp add: add_noun_score_def)
  have rest: "\<forall>n < length ds. int64 (v + d + sum_list (take (Suc n) ds))"
  proof (intro allI impI)
    fix n assume "n < length ds"
    then have "Suc n < length (d # ds)" by simp
    with Cons.prems(3) have "int64 (v + sum_list (take (Suc (Suc n)) (d # ds)))" by blast
    then show "int64 (v + d + sum_list (take (Suc n) ds))" by (simp add: add.assoc)
  qed
  from Cons.prems(2) have ds: "\<forall>d \<in> set ds. int64 d" by simp
  from Cons.IH[OF sel ds rest] obtain db' where
    ih: "add_noun_scores ?db' p s ds =
            Inr (map (\<lambda>n. Some (PyInt (v + d + sum_list (take (Suc n) ds)))) [0..<length ds], db')"
        "select_noun_score db' p s = Some (PyInt (v + d + sum_list ds))" by blast
  show ?case
    by (rule exI[of _ db']) (simp add: step ih map_upt_Suc add.assoc del: upt_Suc)
qed

lemma add_inbetweeny_scores_sum:
  assumes "select_inbetweeny_score db w = Some (PyInt v)"
    and "\<forall>d \<in> set deltas. int64 d"
    and "\<forall>n < length deltas. int64 (v + sum_list (take (Suc n) deltas))"
  shows "\<exists>db'. add_inbetweeny_scores db w deltas =
            Inr (map (\<lambda>n. Some (PyInt (v + sum_list (take (Suc n) deltas)))) [0..<length deltas], db') \<and>
          select_inbetweeny_score db' w = Some (PyInt (v + sum_list deltas))"
  using assms
proof (induction deltas arbitrary: db v)
  case Nil
  then show ?case by simp
next
  case (Cons d ds)
  let ?db' = "update_inbetweeny_score db w d"
  from Cons.prems(3) have r0: "int64 (v + d)" by fastforce
  have sel: "select_inbetweeny_score ?db' w = Some (PyInt (v + d))"
    using select_inbetweeny_score_step[OF Cons.prems(1) r0] .
  have d: "int64 d" using Cons.prems(2) by simp
  have step: "add_inbetweeny_score db w d = Inr (Some (PyInt (v + d)), ?db')"
    using sel d by (simp add: add_inbetweeny_score_def)
  have rest: "\<forall>n < length ds. int64 (v + d + sum_list (take (Suc n) ds))"
  proof (intro allI impI)
    fix n assume "n < length ds"
    then have "Suc n < length (d # ds)" by simp
    with Cons.prems(3) have "int64 (v + sum_list (take (Suc (Suc n)) (d # ds)))" by blast
    then show "int64 (v + d + sum_list (take (Suc n) ds))" by (simp add: add.assoc)
  qed
  from Cons.prems(2) have ds: "\<forall>d \<in> set ds. int64 d" by simp
  from Cons.IH[OF sel ds rest] obtain db' where
    ih: "add_inbetweeny_scores ?db' w ds =
            Inr (map (\<lambda>n. Some (PyInt (v + d + sum_list (take (Suc n) ds)))) [0..<length ds], db')"
        "select_inbetweeny_score db' w = Some (PyInt (v + d + sum_list ds))" by blast
  show ?case
    by (rule exI[of _ db']) (simp add: step ih map_upt_Suc add.assoc del: upt_Suc)
qed

text \<open>
  C3 does not hold as the specification states it: a score is a 64-bit number. From the
  seeded score 0 the deltas below, each of them a 64-bit integer, sum to 0, but the second
  call leaves the integers (it returns a float), the third call adds in floats, and the
  score ends at -1. A delta of \<open>2 ^ 63\<close> is not added at all: the call raises.
\<close>

theorem scores_leave_int64:
  "add_noun_scores (setup_db empty_db) ''frukt'' ''frukten''
     [9223372036854775807, 1, - 9223372036854775807, - 1] =
     Inr ([Some (PyInt 9223372036854775807), Some (PyFloat 9223372036854775808),
           Some (PyInt 0), Some (PyInt (- 1))],
          \<lparr>nouns = [\<lparr>n_prefix = ''frukt'', n_suffix = ''frukten'', n_score = - 1, n_real = False\<rparr>],
           inbetweenies = [\<lparr>i_inbetweeny = ''i'', i_score = 0, i_real = False\<rparr>],
           cte_once = False\<rparr>) \<and>
   sum_list [9223372036854775807, 1, - 9223372036854775807, - 1] = (0 :: int) \<and>
   add_noun_score (setup_db empty_db) ''frukt'' ''frukten'' 9223372036854775808 =
     Inl OverflowError"
proof (intro conjI)
  show "add_noun_scores (setup_db empty_db) ''frukt'' ''frukten''
     [9223372036854775807, 1, - 9223372036854775807, - 1] =
     Inr ([Some (PyInt 9223372036854775807), Some (PyFloat 9223372036854775808),
           Some (PyInt 0), Some (PyInt (- 1))],
          \<lparr>nouns = [\<lparr>n_prefix = ''frukt'', n_suffix = ''frukten'', n_score = - 1, n_real = False\<rparr>],
           inbetweenies = [\<lparr>i_inbetweeny = ''i'', i_score = 0, i_real = False\<rparr>],
           cte_once = False\<rparr>)"
    by code_simp
  show "sum_list [9223372036854775807, 1, - 9223372036854775807, - 1] = (0 :: int)"
    by simp
  show "add_noun_score (setup_db empty_db) ''frukt'' ''frukten'' 9223372036854775808 =
     Inl OverflowError"
    by (simp add: add_noun_score_def int64_def)
qed

text \<open>
  C3, amended. Take a fragment that is in the store with an integer score \<open>v\<close>, and a
  list of deltas applied to it one call after the other with \<open>add_noun_score\<close> (for an
  inbetweeny, \<open>add_inbetweeny_score\<close>), each delta a signed 64-bit integer and the score
  after each call (\<open>v\<close> plus the deltas so far) a signed 64-bit integer too. Then no call
  raises, the \<open>n\<close>-th call returns \<open>v\<close> plus the sum of the first \<open>n\<close> deltas, which is
  the score as it stands after that call, and the score in the end is \<open>v\<close> plus the sum
  of all deltas.
\<close>

theorem scores_are_additive:
  "(select_noun_score db p s = Some (PyInt v) \<and> (\<forall>d \<in> set deltas. int64 d) \<and>
    (\<forall>n < length deltas. int64 (v + sum_list (take (Suc n) deltas))) \<longrightarrow>
      (\<exists>db'. add_noun_scores db p s deltas =
                Inr (map (\<lambda>n. Some (PyInt (v + sum_list (take (Suc n) deltas))))
                       [0..<length deltas], db') \<and>
             select_noun_score db' p s = Some (PyInt (v + sum_list deltas)))) \<and>
   (select_inbetweeny_score db w = Some (PyInt u) \<and> (\<forall>d \<in> set deltas. int64 d) \<and>
    (\<forall>n < length deltas. int64 (u + sum_list (take (Suc n) deltas))) \<longrightarrow>
      (\<exists>db'. add_inbetweeny_scores db w deltas =
                Inr (map (\<lambda>n. Some (PyInt (u + sum_list (take (Suc n) deltas))))
                       [0..<length deltas], db') \<and>
             select_inbetweeny_score db' w = Some (PyInt (u + sum_list deltas))))"
  using add_noun_scores_sum[of db p s v deltas] add_inbetweeny_scores_sum[of db w u deltas]
  by blast

theorem scores_are_additive_witness:
  "select_noun_score (setup_db empty_db) ''frukt'' ''frukten'' = Some (PyInt 0) \<and>
   (\<exists>db'. add_noun_scores (setup_db empty_db) ''frukt'' ''frukten'' [2, - 5, 1] =
            Inr ([Some (PyInt 2), Some (PyInt (- 3)), Some (PyInt (- 2))], db') \<and>
          select_noun_score db' ''frukt'' ''frukten'' = Some (PyInt (- 2))) \<and>
   select_inbetweeny_score (setup_db empty_db) ''i'' = Some (PyInt 0) \<and>
   (\<exists>db'. add_inbetweeny_scores (setup_db empty_db) ''i'' [2, - 5, 1] =
            Inr ([Some (PyInt 2), Some (PyInt (- 3)), Some (PyInt (- 2))], db') \<and>
          select_inbetweeny_score db' ''i'' = Some (PyInt (- 2)))"
proof -
  have n: "select_noun_score (setup_db empty_db) ''frukt'' ''frukten'' = Some (PyInt 0)"
    by (simp add: select_noun_score_def setup_db_def empty_db_def py_score_def)
  have i: "select_inbetweeny_score (setup_db empty_db) ''i'' = Some (PyInt 0)"
    by (simp add: select_inbetweeny_score_def setup_db_def empty_db_def py_score_def)
  have d: "\<forall>d \<in> set [2, - 5, 1]. int64 d" by (simp add: int64_def)
  have r: "\<forall>n < length [2, - 5, 1 :: int]. int64 (0 + sum_list (take (Suc n) [2, - 5, 1]))"
  proof (intro allI impI)
    fix n assume "n < length [2, - 5, 1 :: int]"
    then have "n = 0 \<or> n = 1 \<or> n = 2" by auto
    then show "int64 (0 + sum_list (take (Suc n) [2, - 5, 1]))"
      by (auto simp: int64_def numeral_2_eq_2)
  qed
  have u: "[0..<3] = [0, 1, 2]" by (simp add: upt_rec)
  from scores_are_additive[of "setup_db empty_db" "''frukt''" "''frukten''" 0 "[2, - 5, 1]" "''i''" 0]
    n i d r
  have "(\<exists>db'. add_noun_scores (setup_db empty_db) ''frukt'' ''frukten'' [2, - 5, 1] =
                Inr (map (\<lambda>n. Some (PyInt (0 + sum_list (take (Suc n) [2, - 5, 1]))))
                       [0..<length [2, - 5, 1 :: int]], db') \<and>
             select_noun_score db' ''frukt'' ''frukten'' = Some (PyInt (0 + sum_list [2, - 5, 1]))) \<and>
        (\<exists>db'. add_inbetweeny_scores (setup_db empty_db) ''i'' [2, - 5, 1] =
                Inr (map (\<lambda>n. Some (PyInt (0 + sum_list (take (Suc n) [2, - 5, 1]))))
                       [0..<length [2, - 5, 1 :: int]], db') \<and>
             select_inbetweeny_score db' ''i'' = Some (PyInt (0 + sum_list [2, - 5, 1])))"
    by blast
  then show ?thesis using n i by (simp add: u)
qed

text \<open>
  C4. \<open>add_noun\<close> returns \<open>True\<close> when no stored noun has the pair \<open>(prefix, suffix)\<close>,
  and then stores the pair with score 0; it returns \<open>False\<close>, the \<open>IntegrityError\<close> of
  the insert being caught, when the pair is stored already. So the first call with a fresh
  pair returns \<open>True\<close> and a second call with the same pair \<open>False\<close>. \<open>add_inbetweeny\<close>
  does the same, keyed on the word.
\<close>

theorem add_returns_whether_fresh:
  "((\<forall>r \<in> set (nouns db). \<not> (n_prefix r = p \<and> n_suffix r = s)) \<longrightarrow>
      add_noun db p s =
        (True, db\<lparr>nouns := nouns db @ [\<lparr>n_prefix = p, n_suffix = s, n_score = 0, n_real = False\<rparr>]\<rparr>) \<and>
      fst (add_noun (snd (add_noun db p s)) p s) = False) \<and>
   ((\<exists>r \<in> set (nouns db). n_prefix r = p \<and> n_suffix r = s) \<longrightarrow>
      insert_noun db p s = Inl IntegrityError \<and> fst (add_noun db p s) = False) \<and>
   ((\<forall>r \<in> set (inbetweenies db). i_inbetweeny r \<noteq> w) \<longrightarrow>
      add_inbetweeny db w =
        (True, db\<lparr>inbetweenies := inbetweenies db @ [\<lparr>i_inbetweeny = w, i_score = 0, i_real = False\<rparr>]\<rparr>) \<and>
      fst (add_inbetweeny (snd (add_inbetweeny db w)) w) = False) \<and>
   ((\<exists>r \<in> set (inbetweenies db). i_inbetweeny r = w) \<longrightarrow>
      insert_inbetweeny db w = Inl IntegrityError \<and> fst (add_inbetweeny db w) = False)"
  by (simp add: add_noun_def insert_noun_def add_inbetweeny_def insert_inbetweeny_def)

theorem add_returns_whether_fresh_witness:
  "add_noun empty_db ''don'' ''donet'' =
     (True, \<lparr>nouns = [\<lparr>n_prefix = ''don'', n_suffix = ''donet'', n_score = 0, n_real = False\<rparr>], inbetweenies = [], cte_once = False\<rparr>) \<and>
   fst (add_noun (snd (add_noun empty_db ''don'' ''donet'')) ''don'' ''donet'') = False \<and>
   fst (add_noun (setup_db empty_db) ''frukt'' ''frukten'') = False \<and>
   add_inbetweeny empty_db ''och'' =
     (True, \<lparr>nouns = [], inbetweenies = [\<lparr>i_inbetweeny = ''och'', i_score = 0, i_real = False\<rparr>], cte_once = False\<rparr>) \<and>
   fst (add_inbetweeny (snd (add_inbetweeny empty_db ''och'')) ''och'') = False \<and>
   fst (add_inbetweeny (setup_db empty_db) ''i'') = False"
  using add_returns_whether_fresh[of empty_db "''don''" "''donet''" "''och''"]
    add_returns_whether_fresh[of "setup_db empty_db" "''frukt''" "''frukten''" "''i''"]
  by (simp add: empty_db_def setup_db_def add_noun_def insert_noun_def add_inbetweeny_def
      insert_inbetweeny_def)



text \<open>
  C10. When \<open>add_noun\<close> or \<open>add_inbetweeny\<close> returns \<open>False\<close>, the call leaves the whole
  store as it was: both tables hold the rows they held, and the score of the fragment that
  was there already is the same.
\<close>

theorem duplicate_add_keeps_store:
  "(fst (add_noun db p s) = False \<longrightarrow>
      snd (add_noun db p s) = db \<and>
      select_noun_score (snd (add_noun db p s)) p s = select_noun_score db p s) \<and>
   (fst (add_inbetweeny db w) = False \<longrightarrow>
      snd (add_inbetweeny db w) = db \<and>
      select_inbetweeny_score (snd (add_inbetweeny db w)) w = select_inbetweeny_score db w)"
  by (simp add: add_noun_def insert_noun_def add_inbetweeny_def insert_inbetweeny_def)

theorem duplicate_add_keeps_store_witness:
  "fst (add_noun (setup_db empty_db) ''frukt'' ''frukten'') = False \<and>
   snd (add_noun (setup_db empty_db) ''frukt'' ''frukten'') = setup_db empty_db \<and>
   fst (add_inbetweeny (setup_db empty_db) ''i'') = False \<and>
   snd (add_inbetweeny (setup_db empty_db) ''i'') = setup_db empty_db"
proof -
  have f: "fst (add_noun (setup_db empty_db) ''frukt'' ''frukten'') = False"
    "fst (add_inbetweeny (setup_db empty_db) ''i'') = False"
    by (simp_all add: add_noun_def insert_noun_def add_inbetweeny_def insert_inbetweeny_def
        setup_db_def empty_db_def)
  show ?thesis
    using f duplicate_add_keeps_store[of "setup_db empty_db" "''frukt''" "''frukten''" "''i''"]
    by simp
qed

section \<open>Claims about composing\<close>

lemma random_parts_five:
  assumes "random_parts db g = Inr t"
  shows "\<exists>A B C D E. t = [A, B, C, D, E] \<and>
           A \<in> n_prefix ` set (nouns db) \<and> B \<in> n_suffix ` set (nouns db) \<and>
           C \<in> i_inbetweeny ` set (inbetweenies db) \<and>
           D \<in> n_prefix ` set (nouns db) \<and> E \<in> n_suffix ` set (nouns db)"
proof -
  from random_parts_eligibleD[OF assms] obtain ra rb rc rd re where
    h: "ra < length (nouns db)" "rb < length (nouns db)" "rc < length (inbetweenies db)"
       "rd < length (nouns db)" "re < length (nouns db)"
       "t = parts_of db ra rb rc rd re" by blast
  then show ?thesis unfolding parts_of_def by simp
qed

lemma random_parts_pick [simp]: "random_parts db (g\<lparr>rnd_pick := n\<rparr>) = random_parts db g"
  by (simp add: random_parts_def random_parts_rows_def noun_ref_def cong: if_cong)

text \<open>
  C6. When the only noun with score above \<open>SKIP_SCORE\<close> is ("don", "donet") and the only
  inbetweeny with score above \<open>SKIP_SCORE\<close> is "i", \<open>snusk\<close> returns exactly
  "dondonet i dondonet", whatever the random outcome. In general \<open>snusk\<close> applies the
  template \<open>{A}{B} {C} {D}{E}\<close> to the tuple as drawn: the two parts of each noun pair
  joined with nothing between them, one space on each side of the inbetweeny.
\<close>

theorem snusk_dondonet:
  assumes "\<exists>r \<in> set (nouns db). SKIP_SCORE < n_score r"
    and "\<forall>r \<in> set (nouns db). SKIP_SCORE < n_score r \<longrightarrow> n_prefix r = ''don'' \<and> n_suffix r = ''donet''"
    and "\<exists>r \<in> set (inbetweenies db). SKIP_SCORE < i_score r"
    and "\<forall>r \<in> set (inbetweenies db). SKIP_SCORE < i_score r \<longrightarrow> i_inbetweeny r = ''i''"
  shows "snusk db g = Inr ''dondonet i dondonet'' \<and>
         (\<forall>db' g' A B C D E. random_parts db' g' = Inr [A, B, C, D, E] \<longrightarrow>
            snusk db' g' = Inr (A @ B @ '' '' @ C @ '' '' @ D @ E))"
proof
  from assms(1) obtain i where i: "i < length (nouns db)" "SKIP_SCORE < n_score (nouns db ! i)"
    by (auto simp: in_set_conv_nth)
  from assms(3) obtain k where k: "k < length (inbetweenies db)"
    "SKIP_SCORE < i_score (inbetweenies db ! k)"
    by (auto simp: in_set_conv_nth)
  obtain ra where a: "noun_ref db g (rnd_a g) = [ra]" using noun_ref_nonempty[OF i] by blast
  obtain rb where b: "noun_ref db g (rnd_b g) = [rb]" using noun_ref_nonempty[OF i] by blast
  obtain rc where c: "random_inbetweeny db (rnd_c g) = [rc]"
    using random_inbetweeny_nonempty[OF k] by blast
  obtain rd where d: "noun_ref db g (rnd_d g) = [rd]" using noun_ref_nonempty[OF i] by blast
  obtain re where e: "noun_ref db g (rnd_e g) = [re]" using noun_ref_nonempty[OF i] by blast
  have noun: "n_prefix (nouns db ! r) = ''don'' \<and> n_suffix (nouns db ! r) = ''donet''"
    if "noun_ref db g rnd = [r]" for r rnd
    using noun_ref_eligible[of r db g rnd] that assms(2) by simp
  have word: "i_inbetweeny (inbetweenies db ! rc) = ''i''"
    using random_inbetweeny_eligible[of rc db "rnd_c g"] c assms(4) by simp
  have "random_parts db g = Inr [''don'', ''donet'', ''i'', ''don'', ''donet'']"
    using random_parts_determined[OF a b c d e] noun[OF a] noun[OF b] noun[OF d] noun[OF e] word
    by (simp add: parts_of_def)
  then show "snusk db g = Inr ''dondonet i dondonet''" by (simp add: snusk_def)
next
  show "\<forall>db' g' A B C D E. random_parts db' g' = Inr [A, B, C, D, E] \<longrightarrow>
            snusk db' g' = Inr (A @ B @ '' '' @ C @ '' '' @ D @ E)"
    by (simp add: snusk_def)
qed

theorem snusk_dondonet_witness:
  "snusk \<lparr>nouns = [\<lparr>n_prefix = ''frukt'', n_suffix = ''frukten'', n_score = - 3, n_real = False\<rparr>,
                   \<lparr>n_prefix = ''don'', n_suffix = ''donet'', n_score = 10, n_real = False\<rparr>],
          inbetweenies = [\<lparr>i_inbetweeny = ''i'', i_score = 10, i_real = False\<rparr>,
                          \<lparr>i_inbetweeny = ''och'', i_score = - 4, i_real = False\<rparr>], cte_once = False\<rparr>
     \<lparr>rnd_a = int, rnd_b = int, rnd_c = int, rnd_d = int, rnd_e = int, rnd_pick = 0\<rparr>
   = Inr ''dondonet i dondonet''"
proof -
  let ?db = "\<lparr>nouns = [\<lparr>n_prefix = ''frukt'', n_suffix = ''frukten'', n_score = - 3, n_real = False\<rparr>,
                   \<lparr>n_prefix = ''don'', n_suffix = ''donet'', n_score = 10, n_real = False\<rparr>],
          inbetweenies = [\<lparr>i_inbetweeny = ''i'', i_score = 10, i_real = False\<rparr>,
                          \<lparr>i_inbetweeny = ''och'', i_score = - 4, i_real = False\<rparr>], cte_once = False\<rparr>"
  have h: "\<exists>r \<in> set (nouns ?db). SKIP_SCORE < n_score r"
    "\<forall>r \<in> set (nouns ?db). SKIP_SCORE < n_score r \<longrightarrow> n_prefix r = ''don'' \<and> n_suffix r = ''donet''"
    "\<exists>r \<in> set (inbetweenies ?db). SKIP_SCORE < i_score r"
    "\<forall>r \<in> set (inbetweenies ?db). SKIP_SCORE < i_score r \<longrightarrow> i_inbetweeny r = ''i''"
    by (simp_all add: SKIP_SCORE_def)
  from snusk_dondonet[OF h] show ?thesis by (rule conjunct1)
qed

text \<open>
  C7. \<open>example_snusk a b\<close> draws a tuple \<open>[A, B, C, D, E]\<close> and flips a coin. On
  \<open>True\<close> it puts \<open>a\<close> in slot 0 and \<open>b\<close> in slot 4, on \<open>False\<close> it puts \<open>b\<close> in slot 1
  and \<open>a\<close> in slot 3; the other slots stay as drawn and the result is the template applied
  to the changed tuple. Both branches occur: for the same draw, one value of the coin
  gives the first and another the second.
\<close>

theorem example_snusk_branches:
  assumes "random_parts db g = Inr t"
  shows "\<exists>A B C D E. t = [A, B, C, D, E] \<and>
           (random_choice [False, True] (rnd_pick g) = Inr True \<longrightarrow>
              example_snusk db g a b = format_parts [a, B, C, D, b]) \<and>
           (random_choice [False, True] (rnd_pick g) = Inr False \<longrightarrow>
              example_snusk db g a b = format_parts [A, b, C, a, E]) \<and>
           (random_choice [False, True] (rnd_pick g) = Inr True \<or>
            random_choice [False, True] (rnd_pick g) = Inr False) \<and>
           example_snusk db (g\<lparr>rnd_pick := 1\<rparr>) a b = Inr (a @ B @ '' '' @ C @ '' '' @ D @ b) \<and>
           example_snusk db (g\<lparr>rnd_pick := 0\<rparr>) a b = Inr (A @ b @ '' '' @ C @ '' '' @ a @ E)"
proof -
  from random_parts_five[OF assms] obtain A B C D E where t: "t = [A, B, C, D, E]" by blast
  have "random_choice [False, True] (rnd_pick g) = Inr True \<longrightarrow>
          example_snusk db g a b = format_parts [a, B, C, D, b]"
    using assms by (simp add: example_snusk_def t set_part_def)
  moreover have "random_choice [False, True] (rnd_pick g) = Inr False \<longrightarrow>
          example_snusk db g a b = format_parts [A, b, C, a, E]"
    using assms by (simp add: example_snusk_def t set_part_def)
  moreover have "random_choice [False, True] (rnd_pick g) = Inr True \<or>
            random_choice [False, True] (rnd_pick g) = Inr False"
    by (cases "[False, True] ! (rnd_pick g mod 2)") (simp_all add: random_choice_def)
  moreover have "example_snusk db (g\<lparr>rnd_pick := 1\<rparr>) a b = Inr (a @ B @ '' '' @ C @ '' '' @ D @ b)"
    using assms by (simp add: example_snusk_def t set_part_def random_choice_def)
  moreover have "example_snusk db (g\<lparr>rnd_pick := 0\<rparr>) a b = Inr (A @ b @ '' '' @ C @ '' '' @ a @ E)"
    using assms by (simp add: example_snusk_def t set_part_def random_choice_def)
  ultimately show ?thesis using t by blast
qed

theorem example_snusk_branches_witness:
  "random_parts (setup_db empty_db)
     \<lparr>rnd_a = int, rnd_b = int, rnd_c = int, rnd_d = int, rnd_e = int, rnd_pick = 7\<rparr>
     = Inr [''frukt'', ''frukten'', ''i'', ''frukt'', ''frukten''] \<and>
   example_snusk (setup_db empty_db)
     \<lparr>rnd_a = int, rnd_b = int, rnd_c = int, rnd_d = int, rnd_e = int, rnd_pick = 1\<rparr>
     ''don'' ''donet'' = Inr ''donfrukten i fruktdonet'' \<and>
   example_snusk (setup_db empty_db)
     \<lparr>rnd_a = int, rnd_b = int, rnd_c = int, rnd_d = int, rnd_e = int, rnd_pick = 0\<rparr>
     ''don'' ''donet'' = Inr ''fruktdonet i donfrukten''"
proof -
  let ?g = "\<lparr>rnd_a = int, rnd_b = int, rnd_c = int, rnd_d = int, rnd_e = int, rnd_pick = 7\<rparr>"
  have h: "random_parts (setup_db empty_db) ?g = Inr [''frukt'', ''frukten'', ''i'', ''frukt'', ''frukten'']"
    by code_simp
  from example_snusk_branches[OF h, of "''don''" "''donet''"] h show ?thesis by simp
qed

lemma random_choice_0134:
  "random_choice [0, 1, 3, 4 :: nat] r = Inr 0 \<and> r mod 4 = 0 \<or>
   random_choice [0, 1, 3, 4 :: nat] r = Inr 1 \<and> r mod 4 = 1 \<or>
   random_choice [0, 1, 3, 4 :: nat] r = Inr 3 \<and> r mod 4 = 2 \<or>
   random_choice [0, 1, 3, 4 :: nat] r = Inr 4 \<and> r mod 4 = 3"
proof -
  have "r mod 4 = 0 \<or> r mod 4 = 1 \<or> r mod 4 = 2 \<or> r mod 4 = 3" by presburger
  then show ?thesis by (auto simp: random_choice_def)
qed

lemma sublist_in_template:
  "sublist x (x @ B @ '' '' @ C @ '' '' @ D @ E)"
  "sublist x (A @ x @ '' '' @ C @ '' '' @ D @ E)"
  "sublist x (A @ B @ '' '' @ C @ '' '' @ x @ E)"
  "sublist x (A @ B @ '' '' @ C @ '' '' @ D @ x)"
proof -
  show "sublist x (x @ B @ '' '' @ C @ '' '' @ D @ E)" by (rule sublist_append_rightI)
  show "sublist x (A @ x @ '' '' @ C @ '' '' @ D @ E)" by (rule sublist_appendI)
  have "sublist x ((A @ B @ '' '' @ C @ '' '') @ x @ E)" by (rule sublist_appendI)
  then show "sublist x (A @ B @ '' '' @ C @ '' '' @ x @ E)" by simp
  have "sublist x ((A @ B @ '' '' @ C @ '' '' @ D) @ x)" by (rule sublist_append_leftI)
  then show "sublist x (A @ B @ '' '' @ C @ '' '' @ D @ x)" by simp
qed

lemma sublist_ern: "sublist x (ps @ (x @ ''ern'') @ ss)"
proof -
  have "sublist x (ps @ x @ (''ern'' @ ss))" by (rule sublist_appendI)
  then show ?thesis by simp
qed

lemma card_residue:
  assumes "k < 4"
  shows "card {r. r < 4 * n \<and> r mod 4 = k} = n"
proof (induction n)
  case 0
  then show ?case by simp
next
  case (Suc n)
  have "(r < 4 * Suc n \<and> r mod 4 = k) = (r = 4 * n + k \<or> (r < 4 * n \<and> r mod 4 = k))" for r
  proof
    assume h: "r < 4 * Suc n \<and> r mod 4 = k"
    have d: "r = 4 * (r div 4) + r mod 4" by simp
    from h have b: "r < 4 * n + 4" by simp
    show "r = 4 * n + k \<or> (r < 4 * n \<and> r mod 4 = k)"
    proof (cases "r div 4 < n")
      case True
      with d have "r < 4 * n" by linarith
      with h show ?thesis by simp
    next
      case False
      with b d have "r div 4 = n" by linarith
      with h d show ?thesis by simp
    qed
  next
    assume "r = 4 * n + k \<or> (r < 4 * n \<and> r mod 4 = k)"
    then show "r < 4 * Suc n \<and> r mod 4 = k"
      using assms by auto
  qed
  then have eq: "{r. r < 4 * Suc n \<and> r mod 4 = k} = insert (4 * n + k) {r. r < 4 * n \<and> r mod 4 = k}"
    by blast
  have fin: "finite {r. r < 4 * n \<and> r mod 4 = k}" by simp
  have new: "4 * n + k \<notin> {r. r < 4 * n \<and> r mod 4 = k}" by simp
  show ?case unfolding eq using fin new Suc.IH by simp
qed

lemma random_choice_0134_iff:
  "random_choice [0, 1, 3, 4 :: nat] r = Inr 0 \<longleftrightarrow> r mod 4 = 0"
  "random_choice [0, 1, 3, 4 :: nat] r = Inr 1 \<longleftrightarrow> r mod 4 = 1"
  "random_choice [0, 1, 3, 4 :: nat] r = Inr 3 \<longleftrightarrow> r mod 4 = 2"
  "random_choice [0, 1, 3, 4 :: nat] r = Inr 4 \<longleftrightarrow> r mod 4 = 3"
  using random_choice_0134[of r] by auto

lemma random_choice_0134_uniform:
  "card {r. r < 4 * n \<and> random_choice [0, 1, 3, 4 :: nat] r = Inr 0} = n"
  "card {r. r < 4 * n \<and> random_choice [0, 1, 3, 4 :: nat] r = Inr 1} = n"
  "card {r. r < 4 * n \<and> random_choice [0, 1, 3, 4 :: nat] r = Inr 3} = n"
  "card {r. r < 4 * n \<and> random_choice [0, 1, 3, 4 :: nat] r = Inr 4} = n"
  unfolding random_choice_0134_iff by (simp_all add: card_residue)

text \<open>
  C8 does not hold as the specification states it: "raekern" contains "raek", so an output
  that holds "raekern" holds both. On the freshly set up store, with the index 1 chosen:
\<close>

theorem directed_snusk_both_substrings:
  "directed_snusk (setup_db empty_db)
     \<lparr>rnd_a = int, rnd_b = int, rnd_c = int, rnd_d = int, rnd_e = int, rnd_pick = 1\<rparr> ''raek''
     = Inr ''fruktraekern i fruktfrukten'' \<and>
   sublist ''raek'' ''fruktraekern i fruktfrukten'' \<and>
   sublist ''raekern'' ''fruktraekern i fruktfrukten''"
proof (intro conjI)
  show "directed_snusk (setup_db empty_db)
     \<lparr>rnd_a = int, rnd_b = int, rnd_c = int, rnd_d = int, rnd_e = int, rnd_pick = 1\<rparr> ''raek''
     = Inr ''fruktraekern i fruktfrukten''"
    by code_simp
  have "sublist ''raek'' (''frukt'' @ ''raek'' @ ''ern i fruktfrukten'')" by (rule sublist_appendI)
  then show "sublist ''raek'' ''fruktraekern i fruktfrukten''" by simp
  have "sublist ''raekern'' (''frukt'' @ ''raekern'' @ '' i fruktfrukten'')" by (rule sublist_appendI)
  then show "sublist ''raekern'' ''fruktraekern i fruktfrukten''" by simp
qed

text \<open>
  C8, amended. \<open>directed_snusk target\<close> draws a tuple \<open>[A, B, C, D, E]\<close> from the store
  and overwrites one slot, whose index is chosen uniformly from 0, 1, 3 and 4 (of the
  values \<open>0, ..., 4 * n - 1\<close> of the number drawn, exactly \<open>n\<close> choose each index, and
  each index is chosen by some random outcome): slots 0 and 3 get \<open>target\<close> as it is,
  slots 1 and 4 get \<open>target\<close> followed by "ern". The other four slots keep the values drawn from the store, and the
  result is the template applied to the changed tuple. So the output always contains
  \<open>target\<close>; when the index is 1 or 4 it contains \<open>target\<close> followed by "ern" as well,
  hence both.
\<close>

theorem directed_snusk_slots:
  assumes "random_parts db g = Inr t"
  shows "(\<exists>A B C D E out.
           t = [A, B, C, D, E] \<and>
           A \<in> n_prefix ` set (nouns db) \<and> B \<in> n_suffix ` set (nouns db) \<and>
           C \<in> i_inbetweeny ` set (inbetweenies db) \<and>
           D \<in> n_prefix ` set (nouns db) \<and> E \<in> n_suffix ` set (nouns db) \<and>
           directed_snusk db g target = Inr out \<and>
           (random_choice [0, 1, 3, 4 :: nat] (rnd_pick g) = Inr 0 \<and>
              out = target @ B @ '' '' @ C @ '' '' @ D @ E \<or>
            random_choice [0, 1, 3, 4 :: nat] (rnd_pick g) = Inr 1 \<and>
              out = A @ (target @ ''ern'') @ '' '' @ C @ '' '' @ D @ E \<and>
              sublist (target @ ''ern'') out \<or>
            random_choice [0, 1, 3, 4 :: nat] (rnd_pick g) = Inr 3 \<and>
              out = A @ B @ '' '' @ C @ '' '' @ target @ E \<or>
            random_choice [0, 1, 3, 4 :: nat] (rnd_pick g) = Inr 4 \<and>
              out = A @ B @ '' '' @ C @ '' '' @ D @ (target @ ''ern'') \<and>
              sublist (target @ ''ern'') out) \<and>
           sublist target out \<and>
           directed_snusk db (g\<lparr>rnd_pick := 0\<rparr>) target = format_parts [target, B, C, D, E] \<and>
           directed_snusk db (g\<lparr>rnd_pick := 1\<rparr>) target = format_parts [A, target @ ''ern'', C, D, E] \<and>
           directed_snusk db (g\<lparr>rnd_pick := 2\<rparr>) target = format_parts [A, B, C, target, E] \<and>
           directed_snusk db (g\<lparr>rnd_pick := 3\<rparr>) target = format_parts [A, B, C, D, target @ ''ern'']) \<and>
         (\<forall>n. card {r. r < 4 * n \<and> random_choice [0, 1, 3, 4 :: nat] r = Inr 0} = n \<and>
              card {r. r < 4 * n \<and> random_choice [0, 1, 3, 4 :: nat] r = Inr 1} = n \<and>
              card {r. r < 4 * n \<and> random_choice [0, 1, 3, 4 :: nat] r = Inr 3} = n \<and>
              card {r. r < 4 * n \<and> random_choice [0, 1, 3, 4 :: nat] r = Inr 4} = n)"
proof -
  from random_parts_five[OF assms] obtain A B C D E where t: "t = [A, B, C, D, E]"
    and src: "A \<in> n_prefix ` set (nouns db)" "B \<in> n_suffix ` set (nouns db)"
      "C \<in> i_inbetweeny ` set (inbetweenies db)"
      "D \<in> n_prefix ` set (nouns db)" "E \<in> n_suffix ` set (nouns db)"
    by blast
  let ?c = "random_choice [0, 1, 3, 4 :: nat] (rnd_pick g)"
  have reach:
    "directed_snusk db (g\<lparr>rnd_pick := 0\<rparr>) target = format_parts [target, B, C, D, E]"
    "directed_snusk db (g\<lparr>rnd_pick := 1\<rparr>) target = format_parts [A, target @ ''ern'', C, D, E]"
    "directed_snusk db (g\<lparr>rnd_pick := 2\<rparr>) target = format_parts [A, B, C, target, E]"
    "directed_snusk db (g\<lparr>rnd_pick := 3\<rparr>) target = format_parts [A, B, C, D, target @ ''ern'']"
    using assms by (simp_all add: directed_snusk_def t set_part_def random_choice_def)
  have c0: "?c = Inr 0 \<Longrightarrow> directed_snusk db g target = Inr (target @ B @ '' '' @ C @ '' '' @ D @ E)"
    using assms by (simp add: directed_snusk_def t set_part_def)
  have c1: "?c = Inr 1 \<Longrightarrow>
      directed_snusk db g target = Inr (A @ (target @ ''ern'') @ '' '' @ C @ '' '' @ D @ E)"
    using assms by (simp add: directed_snusk_def t set_part_def)
  have c3: "?c = Inr 3 \<Longrightarrow> directed_snusk db g target = Inr (A @ B @ '' '' @ C @ '' '' @ target @ E)"
    using assms by (simp add: directed_snusk_def t set_part_def)
  have c4: "?c = Inr 4 \<Longrightarrow>
      directed_snusk db g target = Inr (A @ B @ '' '' @ C @ '' '' @ D @ (target @ ''ern''))"
    using assms by (simp add: directed_snusk_def t set_part_def)
  have s1: "sublist target (A @ (target @ ''ern'') @ '' '' @ C @ '' '' @ D @ E)"
    by (rule sublist_ern)
  have s4: "sublist target (A @ B @ '' '' @ C @ '' '' @ D @ (target @ ''ern''))"
    using sublist_ern[of target "A @ B @ '' '' @ C @ '' '' @ D" "[]"] by simp
  have e1: "sublist (target @ ''ern'') (A @ (target @ ''ern'') @ '' '' @ C @ '' '' @ D @ E)"
    by (rule sublist_in_template(2))
  have e4: "sublist (target @ ''ern'') (A @ B @ '' '' @ C @ '' '' @ D @ (target @ ''ern''))"
    by (rule sublist_in_template(4))
  from random_choice_0134[of "rnd_pick g"]
  consider "?c = Inr 0" | "?c = Inr 1" | "?c = Inr 3" | "?c = Inr 4" by blast
  then have slots: "\<exists>A B C D E out.
           t = [A, B, C, D, E] \<and>
           A \<in> n_prefix ` set (nouns db) \<and> B \<in> n_suffix ` set (nouns db) \<and>
           C \<in> i_inbetweeny ` set (inbetweenies db) \<and>
           D \<in> n_prefix ` set (nouns db) \<and> E \<in> n_suffix ` set (nouns db) \<and>
           directed_snusk db g target = Inr out \<and>
           (random_choice [0, 1, 3, 4 :: nat] (rnd_pick g) = Inr 0 \<and>
              out = target @ B @ '' '' @ C @ '' '' @ D @ E \<or>
            random_choice [0, 1, 3, 4 :: nat] (rnd_pick g) = Inr 1 \<and>
              out = A @ (target @ ''ern'') @ '' '' @ C @ '' '' @ D @ E \<and>
              sublist (target @ ''ern'') out \<or>
            random_choice [0, 1, 3, 4 :: nat] (rnd_pick g) = Inr 3 \<and>
              out = A @ B @ '' '' @ C @ '' '' @ target @ E \<or>
            random_choice [0, 1, 3, 4 :: nat] (rnd_pick g) = Inr 4 \<and>
              out = A @ B @ '' '' @ C @ '' '' @ D @ (target @ ''ern'') \<and>
              sublist (target @ ''ern'') out) \<and>
           sublist target out \<and>
           directed_snusk db (g\<lparr>rnd_pick := 0\<rparr>) target = format_parts [target, B, C, D, E] \<and>
           directed_snusk db (g\<lparr>rnd_pick := 1\<rparr>) target = format_parts [A, target @ ''ern'', C, D, E] \<and>
           directed_snusk db (g\<lparr>rnd_pick := 2\<rparr>) target = format_parts [A, B, C, target, E] \<and>
           directed_snusk db (g\<lparr>rnd_pick := 3\<rparr>) target = format_parts [A, B, C, D, target @ ''ern'']"
  proof cases
    case 1
    show ?thesis
      apply (rule exI[of _ A], rule exI[of _ B], rule exI[of _ C], rule exI[of _ D], rule exI[of _ E])
      apply (rule exI[of _ "target @ B @ '' '' @ C @ '' '' @ D @ E"])
      using t src reach c0[OF 1] 1 sublist_in_template(1)[of target B C D E] by simp
  next
    case 2
    show ?thesis
      apply (rule exI[of _ A], rule exI[of _ B], rule exI[of _ C], rule exI[of _ D], rule exI[of _ E])
      apply (rule exI[of _ "A @ (target @ ''ern'') @ '' '' @ C @ '' '' @ D @ E"])
      using t src reach c1[OF 2] 2 s1 e1 by simp
  next
    case 3
    show ?thesis
      apply (rule exI[of _ A], rule exI[of _ B], rule exI[of _ C], rule exI[of _ D], rule exI[of _ E])
      apply (rule exI[of _ "A @ B @ '' '' @ C @ '' '' @ target @ E"])
      using t src reach c3[OF 3] 3 sublist_in_template(3)[of target A B C E] by simp
  next
    case 4
    show ?thesis
      apply (rule exI[of _ A], rule exI[of _ B], rule exI[of _ C], rule exI[of _ D], rule exI[of _ E])
      apply (rule exI[of _ "A @ B @ '' '' @ C @ '' '' @ D @ (target @ ''ern'')"])
      using t src reach c4[OF 4] 4 s4 e4 by simp
  qed
  from slots random_choice_0134_uniform show ?thesis by blast
qed


theorem directed_snusk_slots_witness:
  "random_parts (setup_db empty_db)
     \<lparr>rnd_a = int, rnd_b = int, rnd_c = int, rnd_d = int, rnd_e = int, rnd_pick = 7\<rparr>
     = Inr [''frukt'', ''frukten'', ''i'', ''frukt'', ''frukten''] \<and>
   directed_snusk (setup_db empty_db)
     \<lparr>rnd_a = int, rnd_b = int, rnd_c = int, rnd_d = int, rnd_e = int, rnd_pick = 0\<rparr> ''raek''
     = Inr ''raekfrukten i fruktfrukten'' \<and>
   directed_snusk (setup_db empty_db)
     \<lparr>rnd_a = int, rnd_b = int, rnd_c = int, rnd_d = int, rnd_e = int, rnd_pick = 1\<rparr> ''raek''
     = Inr ''fruktraekern i fruktfrukten'' \<and>
   directed_snusk (setup_db empty_db)
     \<lparr>rnd_a = int, rnd_b = int, rnd_c = int, rnd_d = int, rnd_e = int, rnd_pick = 2\<rparr> ''raek''
     = Inr ''fruktfrukten i raekfrukten'' \<and>
   directed_snusk (setup_db empty_db)
     \<lparr>rnd_a = int, rnd_b = int, rnd_c = int, rnd_d = int, rnd_e = int, rnd_pick = 3\<rparr> ''raek''
     = Inr ''fruktfrukten i fruktraekern''"
proof -
  let ?g = "\<lparr>rnd_a = int, rnd_b = int, rnd_c = int, rnd_d = int, rnd_e = int, rnd_pick = 7\<rparr>"
  have h: "random_parts (setup_db empty_db) ?g = Inr [''frukt'', ''frukten'', ''i'', ''frukt'', ''frukten'']"
    by code_simp
  from directed_snusk_slots[OF h, of "''raek''"] h show ?thesis by auto
qed

lemma find_noun_filter:
  "find_noun db word =
     map (\<lambda>r. (n_prefix r, n_suffix r))
       (filter (\<lambda>r. n_prefix r = word \<or> n_suffix r = word)
          (sort_key (\<lambda>r. (n_prefix r, n_suffix r)) (nouns db)))"
proof -
  have eq: "[(n_prefix r, n_suffix r). r \<leftarrow> ns, word \<in> set [n_prefix r, n_suffix r]] =
        map (\<lambda>r. (n_prefix r, n_suffix r))
          (filter (\<lambda>r. n_prefix r = word \<or> n_suffix r = word) ns)" for ns
    by (induction ns) auto
  show ?thesis unfolding find_noun_def by (rule eq)
qed

text \<open>
  C9 does not hold as the specification states it: the list is not limited to two elements.
  After set-up and two more nouns with the prefix "frukt", \<open>find_noun "frukt"\<close> returns
  three pairs.
\<close>

theorem find_noun_three_matches:
  "find_noun
     (snd (add_noun (snd (add_noun (setup_db empty_db) ''frukt'' ''saften'')) ''frukt'' ''korgen''))
     ''frukt''
   = [(''frukt'', ''frukten''), (''frukt'', ''korgen''), (''frukt'', ''saften'')] \<and>
   length (find_noun
     (snd (add_noun (snd (add_noun (setup_db empty_db) ''frukt'' ''saften'')) ''frukt'' ''korgen''))
     ''frukt'') = 3"
proof -
  have "find_noun
     (snd (add_noun (snd (add_noun (setup_db empty_db) ''frukt'' ''saften'')) ''frukt'' ''korgen''))
     ''frukt''
   = [(''frukt'', ''frukten''), (''frukt'', ''korgen''), (''frukt'', ''saften'')]"
    by code_simp
  then show ?thesis by simp
qed

text \<open>
  C9, amended. For every word, \<open>find_noun\<close> returns exactly the stored nouns whose prefix
  equals the word or whose suffix equals the word, one pair for each such row; the list
  is as long as there are such rows (no bound of two holds). When no two stored nouns
  share their pair, no pair occurs twice in the list. Nothing is said here about the order
  of the list.
\<close>

theorem find_noun_exact:
  "mset (find_noun db word) =
     mset (map (\<lambda>r. (n_prefix r, n_suffix r))
            (filter (\<lambda>r. n_prefix r = word \<or> n_suffix r = word) (nouns db))) \<and>
   ((p, s) \<in> set (find_noun db word) \<longleftrightarrow>
      (\<exists>r \<in> set (nouns db). n_prefix r = p \<and> n_suffix r = s) \<and> (p = word \<or> s = word)) \<and>
   length (find_noun db word) =
     length (filter (\<lambda>r. n_prefix r = word \<or> n_suffix r = word) (nouns db)) \<and>
   (distinct (map (\<lambda>r. (n_prefix r, n_suffix r)) (nouns db)) \<longrightarrow> distinct (find_noun db word))"
proof -
  let ?key = "\<lambda>r. (n_prefix r, n_suffix r)"
  let ?match = "\<lambda>r. n_prefix r = word \<or> n_suffix r = word"
  have m: "mset (find_noun db word) = mset (map ?key (filter ?match (nouns db)))"
    unfolding find_noun_filter by simp
  have e: "(p, s) \<in> set (find_noun db word) \<longleftrightarrow>
      (\<exists>r \<in> set (nouns db). n_prefix r = p \<and> n_suffix r = s) \<and> (p = word \<or> s = word)"
    unfolding find_noun_filter by auto
  from m have "length (find_noun db word) = length (map ?key (filter ?match (nouns db)))"
    by (rule mset_eq_length)
  then have l: "length (find_noun db word) = length (filter ?match (nouns db))"
    by (simp only: length_map)
  have d: "distinct (map ?key (nouns db)) \<longrightarrow> distinct (find_noun db word)"
  proof
    assume "distinct (map ?key (nouns db))"
    then have "distinct (map ?key (filter ?match (nouns db)))" by (rule distinct_map_filter)
    then show "distinct (find_noun db word)"
      using mset_eq_imp_distinct_iff[OF m] by simp
  qed
  from m e l d show ?thesis by blast
qed

theorem find_noun_exact_witness:
  "find_noun
     \<lparr>nouns = [\<lparr>n_prefix = ''hus'', n_suffix = ''don'', n_score = 1, n_real = False\<rparr>,
               \<lparr>n_prefix = ''frukt'', n_suffix = ''frukten'', n_score = 0, n_real = False\<rparr>,
               \<lparr>n_prefix = ''don'', n_suffix = ''donet'', n_score = - 5, n_real = False\<rparr>],
      inbetweenies = [], cte_once = False\<rparr> ''don''
   = [(''don'', ''donet''), (''hus'', ''don'')] \<and>
   distinct (find_noun
     \<lparr>nouns = [\<lparr>n_prefix = ''hus'', n_suffix = ''don'', n_score = 1, n_real = False\<rparr>,
               \<lparr>n_prefix = ''frukt'', n_suffix = ''frukten'', n_score = 0, n_real = False\<rparr>,
               \<lparr>n_prefix = ''don'', n_suffix = ''donet'', n_score = - 5, n_real = False\<rparr>],
      inbetweenies = [], cte_once = False\<rparr> ''don'')"
proof -
  let ?db = "\<lparr>nouns = [\<lparr>n_prefix = ''hus'', n_suffix = ''don'', n_score = 1, n_real = False\<rparr>,
               \<lparr>n_prefix = ''frukt'', n_suffix = ''frukten'', n_score = 0, n_real = False\<rparr>,
               \<lparr>n_prefix = ''don'', n_suffix = ''donet'', n_score = - 5, n_real = False\<rparr>],
      inbetweenies = [], cte_once = False\<rparr>"
  have v: "find_noun ?db ''don'' = [(''don'', ''donet''), (''hus'', ''don'')]"
    by code_simp
  have u: "distinct (map (\<lambda>r. (n_prefix r, n_suffix r)) (nouns ?db))" by simp
  from find_noun_exact[of ?db "''don''" "''don''" "''donet''"] u
  have "distinct (find_noun ?db ''don'')" by blast
  with v show ?thesis by (intro conjI)
qed

end
